theory Spec2Isabelle
  imports Main
begin

section \<open>The session relay of the routes module\<close>

text \<open>
  The relay is the WebSocket part of \<open>registerRoutes\<close>: two module-level maps
  (\<open>connectedClients\<close>, \<open>sessionClients\<close>), and per connection a closure holding
  \<open>userId\<close> and \<open>sessionId\<close> with a \<open>message\<close> handler and a \<open>close\<close> handler.

  Each handler is embedded as a function from the relay state to the new state and the
  list of effects it performs, in the order it performs them. A handler is taken to run to
  completion before the next one starts. In the message handler every \<open>await\<close> is the
  last statement of its branch; the close handler awaits the store between removing the
  registry entry and removing the member, and \<open>MemStorage\<close> resolves at once.
\<close>

subsection \<open>Values\<close>

text \<open>
  A JavaScript value of declared type \<open>number\<close> that may also be \<open>null\<close> or
  \<open>undefined\<close>: \<open>None\<close> is null/undefined, \<open>Some n\<close> the number. Identifiers are
  opaque, so numbers are integers here. An envelope field is either absent or of its
  declared type.
\<close>

type_synonym jsnum = "int option"

text \<open>The truth value JavaScript gives a \<open>jsnum\<close> in \<open>if (x)\<close> and \<open>!x\<close>.\<close>

definition truthy :: "jsnum \<Rightarrow> bool" where
  "truthy v = (case v of None \<Rightarrow> False | Some n \<Rightarrow> n \<noteq> 0)"

text \<open>\<open>x || d\<close> on an optional string: the empty string and undefined are falsy.\<close>

definition or_default :: "string option \<Rightarrow> string \<Rightarrow> string" where
  "or_default v d = (case v of None \<Rightarrow> d | Some s \<Rightarrow> (if s = [] then d else s))"

datatype MessageType =
    CODE_CHANGE | CURSOR_MOVE | FILE_CREATE | FILE_DELETE | CHAT_MESSAGE
  | SESSION_JOIN | SESSION_LEAVE | TERMINAL_OUTPUT | TERMINAL_INPUT

text \<open>
  The payload is \<open>any\<close> in the source. The fields the relay reads or writes are kept;
  \<open>p_other\<close> stands for everything else in it (chat text, cursor position).
\<close>

record payload =
  p_fileId :: jsnum
  p_content :: "string option"
  p_name :: "string option"
  p_language :: "string option"
  p_userId :: jsnum
  p_other :: string

text \<open>
  \<open>WebSocketMessage\<close> as \<open>JSON.parse\<close> returns it. \<open>m_type = None\<close> is a missing
  \<open>type\<close> or a string that is none of the nine kinds; \<open>m_payload = None\<close> is a missing
  (or null) payload, on which a property access throws.
\<close>

record WebSocketMessage =
  m_type :: "MessageType option"
  m_sessionId :: jsnum
  m_userId :: jsnum
  m_payload :: "payload option"

text \<open>
  An inbound frame. \<open>Unparseable\<close> is text on which \<open>JSON.parse\<close> throws (or the JSON
  \<open>null\<close>, whose first property access throws before anything else happens).
\<close>

datatype raw = Unparseable | Parsed WebSocketMessage

subsection \<open>Sockets and the relay state\<close>

type_synonym ws = nat

datatype readyState = CONNECTING | OPEN | CLOSING | CLOSED

text \<open>The closure of one \<open>wss.on('connection')\<close> callback, with the socket's state.\<close>

record connection =
  userId :: jsnum
  sessionId :: jsnum
  readyState :: readyState

text \<open>
  \<open>sessionClients\<close> maps a session to a JavaScript \<open>Set\<close>: a duplicate-free list in
  insertion order, which is the order \<open>for ... of\<close> visits it in.
\<close>

record relay =
  connectedClients :: "jsnum \<rightharpoonup> ws"
  sessionClients :: "jsnum \<rightharpoonup> jsnum list"
  conn :: "ws \<Rightarrow> connection"

definition Set_add :: "'a \<Rightarrow> 'a list \<Rightarrow> 'a list" where
  "Set_add x xs = (if x \<in> set xs then xs else xs @ [x])"

definition Set_delete :: "'a \<Rightarrow> 'a list \<Rightarrow> 'a list" where
  "Set_delete x xs = filter (\<lambda>y. y \<noteq> x) xs"

text \<open>Before any event: both maps empty, every socket open with \<open>null\<close> closure variables.\<close>

definition init :: relay where
  "init = \<lparr> connectedClients = Map.empty, sessionClients = Map.empty,
            conn = (\<lambda>_. \<lparr> userId = None, sessionId = None, readyState = OPEN \<rparr>) \<rparr>"

subsection \<open>Storage and effects\<close>

text \<open>
  The calls the relay makes on \<open>storage\<close> (interface \<open>IStorage\<close>). \<open>UpdateUser u b\<close> is
  \<open>updateUser(u, {isOnline: b})\<close>.
\<close>

datatype storage_call =
    GetUser jsnum
  | UpdateUser jsnum bool
  | UpdateFile jsnum "string option"
  | CreateFile jsnum "string option" string string
  | EndSession jsnum

text \<open>
  What the relay observes of the store: whether \<open>getUser\<close> returns a user, and whether
  the promise of a call rejects.
\<close>

record storage =
  getUser :: "jsnum \<Rightarrow> bool"
  rejects :: "storage_call \<Rightarrow> bool"

text \<open>\<open>MemStorage\<close> holding the given users: no call of it rejects.\<close>

definition MemStorage :: "int list \<Rightarrow> storage" where
  "MemStorage users = \<lparr> getUser = (\<lambda>k. case k of None \<Rightarrow> False | Some n \<Rightarrow> n \<in> set users),
                        rejects = (\<lambda>_. False) \<rparr>"

text \<open>
  \<open>Send w d\<close>: \<open>w.send(JSON.stringify(d))\<close>. \<open>LogError\<close>: the \<open>console.error\<close> of the
  message handler's \<open>catch\<close>. \<open>UnhandledRejection\<close>: a rejected await in the close
  handler, which has no \<open>try\<close>.
\<close>

datatype effect =
    Send ws WebSocketMessage
  | Call storage_call
  | LogError
  | UnhandledRejection

text \<open>An awaited storage call inside the message handler's \<open>try\<close>.\<close>

definition await_call :: "storage \<Rightarrow> storage_call \<Rightarrow> effect list" where
  "await_call sto c = Call c # (if rejects sto c then [LogError] else [])"

subsection \<open>The message handler\<close>

text \<open>Lines 62-65 and 134-137: look the member up and send if its socket is open.\<close>

definition deliver :: "relay \<Rightarrow> WebSocketMessage \<Rightarrow> jsnum \<Rightarrow> effect list" where
  "deliver st d clientId =
     (case connectedClients st clientId of
        None \<Rightarrow> []
      | Some clientWs \<Rightarrow> (if readyState (conn st clientWs) = OPEN then [Send clientWs d] else []))"

text \<open>Lines 55-68: the broadcast, skipping the sender.\<close>

definition broadcast :: "relay \<Rightarrow> jsnum \<Rightarrow> jsnum \<Rightarrow> WebSocketMessage \<Rightarrow> effect list" where
  "broadcast st sid uid d =
     (if truthy sid then
        (case sessionClients st sid of
           None \<Rightarrow> []
         | Some sessionUsers \<Rightarrow>
             concat (map (\<lambda>clientId. if clientId = uid then [] else deliver st d clientId)
                         sessionUsers))
      else [])"

text \<open>Line 38: the first truthy \<open>userId\<close> stays.\<close>

definition bound_user :: "relay \<Rightarrow> ws \<Rightarrow> WebSocketMessage \<Rightarrow> jsnum" where
  "bound_user st w d = (if \<not> truthy (userId (conn st w)) then m_userId d else userId (conn st w))"

definition bind_user :: "relay \<Rightarrow> ws \<Rightarrow> WebSocketMessage \<Rightarrow> relay" where
  "bind_user st w d = st\<lparr> conn := (conn st)(w := (conn st w)\<lparr> userId := bound_user st w d \<rparr>) \<rparr>"

text \<open>Lines 41-52.\<close>

definition join_session :: "relay \<Rightarrow> ws \<Rightarrow> WebSocketMessage \<Rightarrow> relay" where
  "join_session st w d =
     (if m_type d = Some SESSION_JOIN then
        (let sid = m_sessionId d;
             uid = userId (conn st w);
             sc = (if sessionClients st sid = None then (sessionClients st)(sid \<mapsto> [])
                   else sessionClients st);
             sc' = (case sc sid of None \<Rightarrow> sc | Some s \<Rightarrow> sc(sid \<mapsto> Set_add uid s))
         in st\<lparr> connectedClients := (connectedClients st)(uid \<mapsto> w),
                sessionClients := sc',
                conn := (conn st)(w := (conn st w)\<lparr> sessionId := sid \<rparr>) \<rparr>)
      else st)"

text \<open>Lines 71-100: the \<open>switch\<close>.\<close>

definition server_action :: "storage \<Rightarrow> relay \<Rightarrow> ws \<Rightarrow> WebSocketMessage \<Rightarrow> relay \<times> effect list" where
  "server_action sto st w d =
     (let sid = sessionId (conn st w); uid = userId (conn st w) in
      case m_type d of
        Some CODE_CHANGE \<Rightarrow>
          (case m_payload d of
             None \<Rightarrow> (st, [LogError])
           | Some p \<Rightarrow>
               (if truthy (p_fileId p)
                then (st, await_call sto (UpdateFile (p_fileId p) (p_content p)))
                else (st, [])))
      | Some FILE_CREATE \<Rightarrow>
          (if truthy sid then
             (case m_payload d of
                None \<Rightarrow> (st, [LogError])
              | Some p \<Rightarrow>
                  (st, await_call sto (CreateFile sid (p_name p) (or_default (p_content p) [])
                                         (or_default (p_language p) ''javascript''))))
           else (st, []))
      | Some SESSION_LEAVE \<Rightarrow>
          (if truthy sid \<and> truthy uid then
             (let sc = (case sessionClients st sid of
                          None \<Rightarrow> sessionClients st
                        | Some s \<Rightarrow> (sessionClients st)(sid \<mapsto> Set_delete uid s));
                  st' = st\<lparr> sessionClients := sc \<rparr>
              in (st', if sc sid = Some [] then await_call sto (EndSession sid) else []))
           else (st, []))
      | _ \<Rightarrow> (st, []))"

definition on_message :: "storage \<Rightarrow> relay \<Rightarrow> ws \<Rightarrow> raw \<Rightarrow> relay \<times> effect list" where
  "on_message sto st w r =
     (case r of
        Unparseable \<Rightarrow> (st, [LogError])
      | Parsed d \<Rightarrow>
          (let st1 = join_session (bind_user st w d) w d;
               out = broadcast st1 (sessionId (conn st1 w)) (userId (conn st1 w)) d;
               (st2, acts) = server_action sto st1 w d
           in (st2, out @ acts)))"

subsection \<open>The close handler\<close>

text \<open>Lines 114-117: the effects, and whether an await rejected.\<close>

definition set_offline :: "storage \<Rightarrow> jsnum \<Rightarrow> effect list \<times> bool" where
  "set_offline sto uid =
     (if rejects sto (GetUser uid) then ([Call (GetUser uid), UnhandledRejection], False)
      else if getUser sto uid then
        (if rejects sto (UpdateUser uid False)
         then ([Call (GetUser uid), Call (UpdateUser uid False), UnhandledRejection], False)
         else ([Call (GetUser uid), Call (UpdateUser uid False)], True))
      else ([Call (GetUser uid)], True))"

text \<open>Lines 120-145.\<close>

definition leave_on_close :: "storage \<Rightarrow> relay \<Rightarrow> jsnum \<Rightarrow> jsnum \<Rightarrow> relay \<times> effect list" where
  "leave_on_close sto st uid sid =
     (if truthy sid then
        (let sc = (case sessionClients st sid of
                     None \<Rightarrow> sessionClients st
                   | Some s \<Rightarrow> (sessionClients st)(sid \<mapsto> Set_delete uid s));
             st' = st\<lparr> sessionClients := sc \<rparr>
         in case sc sid of
              None \<Rightarrow> (st', [])
            | Some sessionUsers \<Rightarrow>
                (let leaveMsg = \<lparr> m_type = Some SESSION_LEAVE, m_sessionId = sid, m_userId = uid,
                                  m_payload = Some \<lparr> p_fileId = None, p_content = None,
                                    p_name = None, p_language = None, p_userId = uid,
                                    p_other = [] \<rparr> \<rparr>;
                     out = concat (map (deliver st' leaveMsg) sessionUsers)
                 in (st', out @
                       (if sessionUsers = []
                        then Call (EndSession sid) #
                               (if rejects sto (EndSession sid) then [UnhandledRejection] else [])
                        else []))))
      else (st, []))"

text \<open>The socket is \<open>CLOSED\<close> when its \<open>close\<close> event fires.\<close>

definition on_close :: "storage \<Rightarrow> relay \<Rightarrow> ws \<Rightarrow> relay \<times> effect list" where
  "on_close sto st w =
     (let uid = userId (conn st w); sid = sessionId (conn st w);
          st0 = st\<lparr> conn := (conn st)(w := (conn st w)\<lparr> readyState := CLOSED \<rparr>) \<rparr>
      in if truthy uid then
           (let st1 = st0\<lparr> connectedClients := (connectedClients st0)(uid := None) \<rparr>;
                (offl, ok) = set_offline sto uid
            in if ok then
                 (let (st2, acts) = leave_on_close sto st1 uid sid in (st2, offl @ acts))
               else (st1, offl))
         else (st0, []))"

subsection \<open>Traces\<close>

datatype event = Message ws raw | Close ws

fun step :: "storage \<Rightarrow> relay \<Rightarrow> event \<Rightarrow> relay \<times> effect list" where
  "step sto st (Message w r) = on_message sto st w r"
| "step sto st (Close w) = on_close sto st w"

fun run :: "storage \<Rightarrow> relay \<Rightarrow> event list \<Rightarrow> relay \<times> effect list" where
  "run sto st [] = (st, [])"
| "run sto st (e # es) =
     (let (st1, out1) = step sto st e; (st2, out2) = run sto st1 es in (st2, out1 @ out2))"

text \<open>The members of a session: the empty list for an unknown session.\<close>

definition members :: "relay \<Rightarrow> jsnum \<Rightarrow> jsnum list" where
  "members st sid = (case sessionClients st sid of None \<Rightarrow> [] | Some s \<Rightarrow> s)"

definition calls :: "storage_call \<Rightarrow> effect list \<Rightarrow> nat" where
  "calls c out = length (filter (\<lambda>e. e = Call c) out)"

text \<open>The effects of a handler, by kind: the sends, everything else, the sockets sent
  to, the storage calls made.\<close>

definition sends :: "effect list \<Rightarrow> effect list" where
  "sends out = filter (\<lambda>e. case e of Send _ _ \<Rightarrow> True | _ \<Rightarrow> False) out"

definition others :: "effect list \<Rightarrow> effect list" where
  "others out = filter (\<lambda>e. case e of Send _ _ \<Rightarrow> False | _ \<Rightarrow> True) out"


definition storage_calls :: "effect list \<Rightarrow> storage_call list" where
  "storage_calls out = concat (map (\<lambda>e. case e of Call c \<Rightarrow> [c] | _ \<Rightarrow> []) out)"

subsection \<open>Reading a trace\<close>

text \<open>
  Every parsed event on socket \<open>w\<close> carries the participant \<open>uid w\<close> as its
  \<open>userId\<close>: each connection speaks for one participant.
\<close>

fun identified :: "(ws \<Rightarrow> int) \<Rightarrow> event \<Rightarrow> bool" where
  "identified uid (Message w (Parsed d)) = (m_userId d = Some (uid w))"
| "identified uid _ = True"

fun is_join_by :: "ws \<Rightarrow> event \<Rightarrow> bool" where
  "is_join_by w (Message w' (Parsed d)) = (w' = w \<and> m_type d = Some SESSION_JOIN)"
| "is_join_by w _ = False"

fun is_leave_by :: "ws \<Rightarrow> event \<Rightarrow> bool" where
  "is_leave_by w (Message w' (Parsed d)) = (w' = w \<and> m_type d = Some SESSION_LEAVE)"
| "is_leave_by w _ = False"

text \<open>
  Reading the events from the most recent one backwards, a session-join sent on \<open>w\<close> is
  met before any close of \<open>w\<close>: the connection has sent a session-join and has not
  closed since.
\<close>

fun joined_open :: "ws \<Rightarrow> event list \<Rightarrow> bool" where
  "joined_open w [] = False"
| "joined_open w (e # es) =
     (if e = Close w then False else if is_join_by w e then True else joined_open w es)"

text \<open>
  Reading backwards, a session-join sent on \<open>w\<close> is met before any session-leave sent on
  \<open>w\<close>: its most recent join is later than its most recent leave.
\<close>

fun joined_since_left :: "ws \<Rightarrow> event list \<Rightarrow> bool" where
  "joined_since_left w [] = False"
| "joined_since_left w (e # es) =
     (if is_join_by w e then True else if is_leave_by w e then False else joined_since_left w es)"

text \<open>
  A session-join or session-leave for session \<open>s\<close>, sent on \<open>w\<close> in the name of
  participant \<open>uid w\<close>.
\<close>

fun join_or_leave :: "(ws \<Rightarrow> int) \<Rightarrow> int \<Rightarrow> event \<Rightarrow> bool" where
  "join_or_leave uid s (Message w (Parsed d)) =
     ((m_type d = Some SESSION_JOIN \<or> m_type d = Some SESSION_LEAVE)
      \<and> m_userId d = Some (uid w) \<and> m_sessionId d = Some s)"
| "join_or_leave uid s _ = False"



text \<open>The socket of an event, and the session its connection remembers.\<close>

fun socket :: "event \<Rightarrow> ws" where
  "socket (Message w r) = w"
| "socket (Close w) = w"

definition remembered :: "relay \<Rightarrow> event \<Rightarrow> jsnum" where
  "remembered st e = sessionId (conn st (socket e))"

fun is_join :: "event \<Rightarrow> bool" where
  "is_join (Message w (Parsed d)) = (m_type d = Some SESSION_JOIN)"
| "is_join _ = False"

text \<open>The participant whose membership a leave or close removes (lines 92 and 121).\<close>

fun leaver :: "relay \<Rightarrow> event \<Rightarrow> jsnum" where
  "leaver st (Message w (Parsed d)) = bound_user st w d"
| "leaver st (Message w Unparseable) = userId (conn st w)"
| "leaver st (Close w) = userId (conn st w)"

text \<open>
  The event reaches the \<open>delete\<close> of line 92 or line 121: a session-leave on a
  connection with a truthy session and participant, or a close of such a connection whose
  two user calls did not reject.
\<close>

fun removes :: "storage \<Rightarrow> relay \<Rightarrow> event \<Rightarrow> bool" where
  "removes sto st (Message w (Parsed d)) =
     (m_type d = Some SESSION_LEAVE
      \<and> truthy (sessionId (conn st w)) \<and> truthy (bound_user st w d))"
| "removes sto st (Message w Unparseable) = False"
| "removes sto st (Close w) =
     (truthy (userId (conn st w)) \<and> snd (set_offline sto (userId (conn st w)))
      \<and> truthy (sessionId (conn st w)))"

text \<open>
  A leave or close that reaches the \<open>delete\<close> on a connection whose remembered session
  has a membership set that is already empty.
\<close>

definition after_end :: "storage \<Rightarrow> relay \<Rightarrow> event \<Rightarrow> bool" where
  "after_end sto st e = (removes sto st e \<and> sessionClients st (remembered st e) = Some [])"

text \<open>
  No event of the trace is a session-join, and none comes after the end of session \<open>k\<close>
  on a connection that remembers \<open>k\<close>, in the state it is handled in.
\<close>

fun unrepeated :: "storage \<Rightarrow> jsnum \<Rightarrow> relay \<Rightarrow> event list \<Rightarrow> bool" where
  "unrepeated sto k st [] = True"
| "unrepeated sto k st (e # es) =
     (\<not> is_join e \<and> \<not> (after_end sto st e \<and> remembered st e = k)
      \<and> unrepeated sto k (fst (step sto st e)) es)"


subsection \<open>Concrete envelopes and states\<close>

definition no_payload :: payload where
  "no_payload = \<lparr> p_fileId = None, p_content = None, p_name = None, p_language = None,
                   p_userId = None, p_other = [] \<rparr>"

definition join17 :: WebSocketMessage where
  "join17 = \<lparr> m_type = Some SESSION_JOIN, m_sessionId = Some 7, m_userId = Some 1,
              m_payload = Some (no_payload\<lparr> p_userId := Some 1 \<rparr>) \<rparr>"

definition join27 :: WebSocketMessage where
  "join27 = \<lparr> m_type = Some SESSION_JOIN, m_sessionId = Some 7, m_userId = Some 2,
              m_payload = Some (no_payload\<lparr> p_userId := Some 2 \<rparr>) \<rparr>"

definition leave17 :: WebSocketMessage where
  "leave17 = \<lparr> m_type = Some SESSION_LEAVE, m_sessionId = Some 7, m_userId = Some 1,
               m_payload = Some (no_payload\<lparr> p_userId := Some 1 \<rparr>) \<rparr>"

definition chat17 :: WebSocketMessage where
  "chat17 = \<lparr> m_type = Some CHAT_MESSAGE, m_sessionId = Some 7, m_userId = Some 1,
              m_payload = Some (no_payload\<lparr> p_other := ''hello'' \<rparr>) \<rparr>"

definition code17 :: WebSocketMessage where
  "code17 = \<lparr> m_type = Some CODE_CHANGE, m_sessionId = Some 7, m_userId = Some 1,
              m_payload = Some (no_payload\<lparr> p_fileId := Some 10, p_content := Some ''x=1'' \<rparr>) \<rparr>"





text \<open>Participant 1 on socket 0 has joined session 7.\<close>

definition one_joined :: relay where
  "one_joined = fst (on_message (MemStorage [1, 2]) init 0 (Parsed join17))"

text \<open>Participants 1 (socket 0) and 2 (socket 1) have joined session 7.\<close>

definition two_joined :: relay where
  "two_joined = fst (on_message (MemStorage [1, 2]) one_joined 1 (Parsed join27))"

section \<open>Properties\<close>

subsection \<open>Effects of the parts of the message handler\<close>

lemma sends_Nil: "sends [] = []"
  by (simp add: sends_def)

lemma others_Nil: "others [] = []"
  by (simp add: others_def)

lemma sends_append: "sends (xs @ ys) = sends xs @ sends ys"
  by (simp add: sends_def)

lemma others_append: "others (xs @ ys) = others xs @ others ys"
  by (simp add: others_def)

lemma sends_deliver: "sends (deliver st d k) = deliver st d k"
  by (simp add: deliver_def sends_def split: option.splits)

lemma others_deliver: "others (deliver st d k) = []"
  by (simp add: deliver_def others_def split: option.splits)

lemma sends_broadcast: "sends (broadcast st sid uid d) = broadcast st sid uid d"
proof -
  have "sends (concat (map (\<lambda>k. if k = uid then [] else deliver st d k) xs))
        = concat (map (\<lambda>k. if k = uid then [] else deliver st d k) xs)" for xs
    by (induction xs) (simp_all add: sends_append sends_deliver sends_Nil)
  then show ?thesis
    by (cases "truthy sid"; cases "sessionClients st sid") (simp_all add: broadcast_def sends_Nil)
qed

lemma others_broadcast: "others (broadcast st sid uid d) = []"
proof -
  have "others (concat (map (\<lambda>k. if k = uid then [] else deliver st d k) xs)) = []" for xs
    by (induction xs) (simp_all add: others_append others_deliver others_Nil)
  then show ?thesis
    by (cases "truthy sid"; cases "sessionClients st sid") (simp_all add: broadcast_def others_Nil)
qed

lemma LogError_notin_deliver: "LogError \<notin> set (deliver st d k)"
  by (simp add: deliver_def split: option.splits)

lemma LogError_notin_broadcast: "LogError \<notin> set (broadcast st sid uid d)"
  by (cases "truthy sid") (simp_all add: broadcast_def LogError_notin_deliver)

lemma sends_await_call: "sends (await_call sto c) = []"
  by (simp add: await_call_def sends_def)

lemma sends_server_action: "sends (snd (server_action sto st w d)) = []"
  by (simp add: server_action_def Let_def await_call_def sends_def
           split: option.splits MessageType.splits)

lemma others_server_action: "others (snd (server_action sto st w d)) = snd (server_action sto st w d)"
  by (simp add: server_action_def Let_def await_call_def split: option.splits MessageType.splits)
     (simp add: others_def)

lemma on_message_Parsed:
  "on_message sto st w (Parsed d) =
     (fst (server_action sto (join_session (bind_user st w d) w d) w d),
      broadcast (join_session (bind_user st w d) w d)
         (sessionId (conn (join_session (bind_user st w d) w d) w))
         (userId (conn (join_session (bind_user st w d) w d) w)) d
      @ snd (server_action sto (join_session (bind_user st w d) w d) w d))"
  by (simp add: on_message_def Let_def split_beta)

subsection \<open>State changes of the parts of the message handler\<close>

lemma sessionId_bind_user: "sessionId (conn (bind_user st w d) w') = sessionId (conn st w')"
  by (simp add: bind_user_def)

lemma userId_bind_user: "userId (conn (bind_user st w d) w) = bound_user st w d"
  by (simp add: bind_user_def)

lemma maps_bind_user:
  "connectedClients (bind_user st w d) = connectedClients st"
  "sessionClients (bind_user st w d) = sessionClients st"
  by (simp_all add: bind_user_def)

lemma members_bind_user: "members (bind_user st w d) k = members st k"
  by (simp add: members_def maps_bind_user)

lemma join_session_other: "m_type d \<noteq> Some SESSION_JOIN \<Longrightarrow> join_session st w d = st"
  by (simp add: join_session_def)

lemma server_action_join: "m_type d = Some SESSION_JOIN \<Longrightarrow> server_action sto st w d = (st, [])"
  by (simp add: server_action_def)

lemma connectedClients_server_action:
  "connectedClients (fst (server_action sto st w d)) = connectedClients st"
  by (simp add: server_action_def Let_def split: option.splits MessageType.splits)

lemma conn_server_action: "conn (fst (server_action sto st w d)) = conn st"
  by (simp add: server_action_def Let_def split: option.splits MessageType.splits)

lemma Set_add_member: "x \<in> set xs \<Longrightarrow> Set_add x xs = xs"
  by (simp add: Set_add_def)

lemma set_Set_add: "set (Set_add x xs) = insert x (set xs)"
  by (auto simp: Set_add_def)

lemma set_Set_delete: "set (Set_delete x xs) = set xs - {x}"
  by (auto simp: Set_delete_def)

lemma members_server_action_subset:
  "set (members (fst (server_action sto st w d)) k) \<subseteq> set (members st k)"
  by (auto simp: server_action_def Let_def members_def set_Set_delete
           split: option.splits MessageType.splits if_splits)

lemma server_action_no_session:
  "\<not> truthy (sessionId (conn st w)) \<Longrightarrow>
   sessionClients (fst (server_action sto st w d)) = sessionClients st"
  by (simp add: server_action_def Let_def split: option.splits MessageType.splits)

lemma sessionClients_join_member:
  assumes "m_type d = Some SESSION_JOIN"
    and "userId (conn st w) \<in> set (members st (m_sessionId d))"
  shows "sessionClients (join_session st w d) = sessionClients st"
  using assms
  by (auto simp: join_session_def members_def Let_def Set_add_member fun_upd_idem
           split: option.splits)

subsection \<open>The concrete states\<close>

lemmas relay_defs = on_message_def Let_def bind_user_def bound_user_def join_session_def
  server_action_def truthy_def Set_add_def Set_delete_def broadcast_def deliver_def

lemma one_joined_eq:
  "one_joined = \<lparr> connectedClients = [Some 1 \<mapsto> 0], sessionClients = [Some 7 \<mapsto> [Some 1]],
      conn = (\<lambda>_. \<lparr> userId = None, sessionId = None, readyState = OPEN \<rparr>)
               (0 := \<lparr> userId = Some 1, sessionId = Some 7, readyState = OPEN \<rparr>) \<rparr>"
  by (simp add: one_joined_def init_def join17_def relay_defs)

lemma two_joined_eq:
  "two_joined = \<lparr> connectedClients = [Some 1 \<mapsto> 0, Some 2 \<mapsto> 1],
      sessionClients = [Some 7 \<mapsto> [Some 1, Some 2]],
      conn = (\<lambda>_. \<lparr> userId = None, sessionId = None, readyState = OPEN \<rparr>)
               (0 := \<lparr> userId = Some 1, sessionId = Some 7, readyState = OPEN \<rparr>,
                1 := \<lparr> userId = Some 2, sessionId = Some 7, readyState = OPEN \<rparr>) \<rparr>"
  by (simp add: two_joined_def one_joined_eq join27_def relay_defs)

lemma members_one_joined: "members one_joined (Some 7) = [Some 1]"
  by (simp add: one_joined_eq members_def)

lemma userId_one_joined: "userId (conn one_joined 0) = Some 1"
  by (simp add: one_joined_eq)

subsection \<open>Joining twice\<close>

text \<open>
  C7. Joining is idempotent. When a connection sends a session-join naming a session of
  which the participant it is bound to (after line 38) is already a member, the whole
  membership table is left as it was: the session has the same members, no more of them, and
  the handler logs no error.
\<close>

theorem join_idempotent:
  assumes "m_type d = Some SESSION_JOIN"
    and "bound_user st w d \<in> set (members st (m_sessionId d))"
  shows "sessionClients (fst (on_message sto st w (Parsed d))) = sessionClients st
         \<and> members (fst (on_message sto st w (Parsed d))) (m_sessionId d) = members st (m_sessionId d)
         \<and> LogError \<notin> set (snd (on_message sto st w (Parsed d)))"
proof -
  have b: "userId (conn (bind_user st w d) w) \<in> set (members (bind_user st w d) (m_sessionId d))"
    using assms(2) by (simp add: userId_bind_user members_bind_user)
  have "sessionClients (join_session (bind_user st w d) w d) = sessionClients st"
    using sessionClients_join_member [OF assms(1) b] by (simp add: maps_bind_user)
  then show ?thesis
    using assms(1)
    by (simp add: on_message_Parsed server_action_join LogError_notin_broadcast members_def)
qed

theorem join_idempotent_witness:
  "m_type join17 = Some SESSION_JOIN
   \<and> bound_user one_joined 0 join17 \<in> set (members one_joined (m_sessionId join17))
   \<and> members (fst (on_message (MemStorage [1, 2]) one_joined 0 (Parsed join17))) (Some 7) = [Some 1]"
proof -
  have t: "m_type join17 = Some SESSION_JOIN"
    by (simp add: join17_def)
  have s: "m_sessionId join17 = Some 7"
    by (simp add: join17_def)
  have m: "bound_user one_joined 0 join17 \<in> set (members one_joined (m_sessionId join17))"
    by (simp add: s members_one_joined bound_user_def userId_one_joined truthy_def)
  show ?thesis
    using t m join_idempotent [OF t m, of "MemStorage [1, 2]"] by (simp add: s members_one_joined)
qed

subsection \<open>Events before the first join\<close>

text \<open>
  C9. An event that is not a session-join never changes the Connection Registry and adds
  nobody to any membership set, so only a session-join registers a connection or adds a
  member. On a connection that has not joined yet (its remembered session is still
  \<open>null\<close>) such an event is moreover sent to no one and leaves every membership set as
  it was.
\<close>

theorem before_join_no_effect:
  assumes "m_type d \<noteq> Some SESSION_JOIN"
  shows "connectedClients (fst (on_message sto st w (Parsed d))) = connectedClients st
       \<and> (\<forall>k. set (members (fst (on_message sto st w (Parsed d))) k) \<subseteq> set (members st k))
       \<and> (sessionId (conn st w) = None \<longrightarrow>
            sends (snd (on_message sto st w (Parsed d))) = []
          \<and> sessionClients (fst (on_message sto st w (Parsed d))) = sessionClients st)"
proof -
  let ?b = "bind_user st w d"
  have j: "join_session ?b w d = ?b"
    using assms by (rule join_session_other)
  have a: "connectedClients (fst (on_message sto st w (Parsed d))) = connectedClients st"
    by (simp add: on_message_Parsed j connectedClients_server_action maps_bind_user)
  have b: "set (members (fst (on_message sto st w (Parsed d))) k) \<subseteq> set (members st k)" for k
    using members_server_action_subset [of sto ?b w d k]
    by (simp add: on_message_Parsed j members_bind_user)
  have c: "sends (snd (on_message sto st w (Parsed d))) = []
          \<and> sessionClients (fst (on_message sto st w (Parsed d))) = sessionClients st"
    if n: "sessionId (conn st w) = None"
  proof -
    have s: "sessionId (conn ?b w) = None"
      using n by (simp add: sessionId_bind_user)
    then have nt: "\<not> truthy (sessionId (conn ?b w))"
      by (simp add: truthy_def)
    have "broadcast ?b None (userId (conn ?b w)) d = []"
      by (simp add: broadcast_def truthy_def)
    then have "sends (snd (on_message sto st w (Parsed d))) = []"
      by (simp add: on_message_Parsed j s sends_append sends_server_action sends_Nil)
    moreover have "sessionClients (fst (on_message sto st w (Parsed d))) = sessionClients st"
      using server_action_no_session [OF nt, of sto d]
      by (simp add: on_message_Parsed j maps_bind_user)
    ultimately show ?thesis by simp
  qed
  show ?thesis using a b c by blast
qed

theorem before_join_no_effect_witness:
  "m_type chat17 \<noteq> Some SESSION_JOIN
   \<and> sessionId (conn init 0) = None
   \<and> connectedClients (fst (on_message (MemStorage [1, 2]) init 0 (Parsed chat17))) = connectedClients init
   \<and> sends (snd (on_message (MemStorage [1, 2]) init 0 (Parsed chat17))) = []
   \<and> sessionClients (fst (on_message (MemStorage [1, 2]) init 0 (Parsed chat17))) = sessionClients init"
proof -
  have t: "m_type chat17 \<noteq> Some SESSION_JOIN"
    by (simp add: chat17_def)
  have n: "sessionId (conn init 0) = None"
    by (simp add: init_def)
  show ?thesis
    using t n before_join_no_effect [OF t, of "MemStorage [1, 2]" init 0] by simp
qed

subsection \<open>The broadcast\<close>




lemma storage_calls_others: "storage_calls (others out) = storage_calls out"
  by (induction out) (simp_all add: storage_calls_def others_def split: effect.splits)



subsection \<open>The remembered session\<close>








lemma Call_notin_broadcast: "Call c \<notin> set (broadcast st sid uid d)"
  by (cases "truthy sid") (simp_all add: broadcast_def deliver_def split: option.splits)




subsection \<open>Storage calls come after the broadcast\<close>

lemma sends_others_on_message:
  "sends (snd (on_message sto st w (Parsed d)))
     = broadcast (join_session (bind_user st w d) w d)
         (sessionId (conn (join_session (bind_user st w d) w d) w))
         (userId (conn (join_session (bind_user st w d) w d) w)) d"
  "others (snd (on_message sto st w (Parsed d)))
     = snd (server_action sto (join_session (bind_user st w d) w d) w d)"
  by (simp_all add: on_message_Parsed sends_append others_append sends_broadcast
        others_broadcast sends_server_action others_server_action)

lemma server_action_code_change:
  assumes "m_type d = Some CODE_CHANGE" "m_payload d = Some p" "truthy (p_fileId p)"
  shows "snd (server_action sto st w d) = await_call sto (UpdateFile (p_fileId p) (p_content p))"
  using assms by (simp add: server_action_def)

text \<open>
  C6. In the effects of handling any parsed event all sends come first and everything else
  (storage calls, logged errors) after them; the sends are the same whatever the store does,
  so a failing storage call retracts nothing. A code-change carrying a (nonzero) file id
  makes exactly one storage call, \<open>updateFile\<close> with the event's file id and content, after
  the sends, followed by a logged error exactly when that call rejects.
\<close>

theorem storage_after_broadcast:
  "snd (on_message sto st w (Parsed d))
     = sends (snd (on_message sto st w (Parsed d))) @ others (snd (on_message sto st w (Parsed d)))
   \<and> sends (snd (on_message sto' st w (Parsed d))) = sends (snd (on_message sto st w (Parsed d)))
   \<and> (\<forall>p. m_type d = Some CODE_CHANGE \<and> m_payload d = Some p \<and> truthy (p_fileId p) \<longrightarrow>
         storage_calls (snd (on_message sto st w (Parsed d)))
           = [UpdateFile (p_fileId p) (p_content p)]
       \<and> others (snd (on_message sto st w (Parsed d)))
           = Call (UpdateFile (p_fileId p) (p_content p))
             # (if rejects sto (UpdateFile (p_fileId p) (p_content p)) then [LogError] else []))"
proof -
  have 1: "snd (on_message sto st w (Parsed d))
     = sends (snd (on_message sto st w (Parsed d))) @ others (snd (on_message sto st w (Parsed d)))"
    by (simp add: sends_others_on_message) (simp add: on_message_Parsed)
  have 2: "sends (snd (on_message sto' st w (Parsed d))) = sends (snd (on_message sto st w (Parsed d)))"
    by (simp add: sends_others_on_message)
  have 3: "storage_calls (snd (on_message sto st w (Parsed d)))
           = [UpdateFile (p_fileId p) (p_content p)]
       \<and> others (snd (on_message sto st w (Parsed d)))
           = Call (UpdateFile (p_fileId p) (p_content p))
             # (if rejects sto (UpdateFile (p_fileId p) (p_content p)) then [LogError] else [])"
    if "m_type d = Some CODE_CHANGE \<and> m_payload d = Some p \<and> truthy (p_fileId p)" for p
  proof -
    have o: "others (snd (on_message sto st w (Parsed d)))
             = await_call sto (UpdateFile (p_fileId p) (p_content p))"
      using that by (simp add: sends_others_on_message server_action_code_change)
    have "storage_calls (snd (on_message sto st w (Parsed d)))
          = storage_calls (await_call sto (UpdateFile (p_fileId p) (p_content p)))"
      using o storage_calls_others [of "snd (on_message sto st w (Parsed d))"] by simp
    then show ?thesis
      using o by (simp add: await_call_def storage_calls_def)
  qed
  show ?thesis using 1 2 3 by blast
qed

theorem storage_after_broadcast_witness:
  "m_type code17 = Some CODE_CHANGE
   \<and> m_payload code17 = Some (no_payload\<lparr> p_fileId := Some 10, p_content := Some ''x=1'' \<rparr>)
   \<and> truthy (Some 10)
   \<and> snd (on_message (MemStorage [1, 2]) two_joined 0 (Parsed code17))
       = [Send 1 code17, Call (UpdateFile (Some 10) (Some ''x=1''))]"
proof -
  let ?p = "no_payload\<lparr> p_fileId := Some 10, p_content := Some ''x=1'' \<rparr>"
  let ?out = "snd (on_message (MemStorage [1, 2]) two_joined 0 (Parsed code17))"
  have h: "m_type code17 = Some CODE_CHANGE \<and> m_payload code17 = Some ?p \<and> truthy (p_fileId ?p)"
    by (simp add: code17_def truthy_def no_payload_def)
  have b: "sends ?out = [Send 1 code17]"
    by (simp add: two_joined_eq code17_def relay_defs no_payload_def sends_def await_call_def)
  have n: "\<not> rejects (MemStorage [1, 2]) c" for c
    by (simp add: MemStorage_def)
  have "?out = sends ?out @ others ?out
     \<and> others ?out = Call (UpdateFile (p_fileId ?p) (p_content ?p))
             # (if rejects (MemStorage [1, 2]) (UpdateFile (p_fileId ?p) (p_content ?p))
                then [LogError] else [])"
    using storage_after_broadcast [of "MemStorage [1, 2]" two_joined 0 code17 "MemStorage [1, 2]"] h
    by blast
  then have a: "?out = sends ?out @ others ?out"
    and o': "others ?out = Call (UpdateFile (p_fileId ?p) (p_content ?p))
             # (if rejects (MemStorage [1, 2]) (UpdateFile (p_fileId ?p) (p_content ?p))
                then [LogError] else [])"
    by blast+
  have o: "others ?out = [Call (UpdateFile (Some 10) (Some ''x=1''))]"
    unfolding o' by (simp add: n no_payload_def)
  have "?out = [Send 1 code17, Call (UpdateFile (Some 10) (Some ''x=1''))]"
    by (subst a) (simp add: b o)
  then show ?thesis
    using h by (simp add: no_payload_def truthy_def)
qed

subsection \<open>The last member disconnects\<close>

lemma calls_append: "calls c (xs @ ys) = calls c xs + calls c ys"
  by (simp add: calls_def)

lemma calls_broadcast: "calls c (broadcast st sid uid d) = 0"
  using Call_notin_broadcast [of c st sid uid d] by (auto simp: calls_def filter_empty_conv)

lemma closure_after_join:
  assumes "m_type d = Some SESSION_JOIN"
  shows "userId (conn (fst (on_message sto st w (Parsed d))) w) = bound_user st w d"
    and "sessionId (conn (fst (on_message sto st w (Parsed d))) w) = m_sessionId d"
    and "connectedClients (fst (on_message sto st w (Parsed d))) (bound_user st w d) = Some w"
    and "calls c (snd (on_message sto st w (Parsed d))) = 0"
  using assms
  by (simp_all add: on_message_Parsed server_action_join calls_append calls_broadcast)
     (simp_all add: join_session_def Let_def bind_user_def calls_def split: option.splits)

lemma on_close_last_member:
  assumes u: "userId (conn st w) = Some u" "u \<noteq> 0"
    and s: "sessionId (conn st w) = Some s" "s \<noteq> 0"
    and g: "getUser sto (Some u)" "\<not> rejects sto (GetUser (Some u))"
           "\<not> rejects sto (UpdateUser (Some u) False)"
    and m: "members st (Some s) = [Some u]"
  shows "members (fst (on_close sto st w)) (Some s) = []"
    and "sessionClients (fst (on_close sto st w)) (Some s) = Some []"
    and "calls (EndSession (Some s)) (snd (on_close sto st w)) = 1"
    and "calls (UpdateUser (Some u) False) (snd (on_close sto st w)) = 1"
proof -
  have sc: "sessionClients st (Some s) = Some [Some u]"
    using m by (simp add: members_def split: option.splits)
  show "members (fst (on_close sto st w)) (Some s) = []"
    and "sessionClients (fst (on_close sto st w)) (Some s) = Some []"
    and "calls (EndSession (Some s)) (snd (on_close sto st w)) = 1"
    and "calls (UpdateUser (Some u) False) (snd (on_close sto st w)) = 1"
    using u s g sc
    by (simp_all add: on_close_def Let_def set_offline_def leave_on_close_def truthy_def
          Set_delete_def members_def calls_def)
qed

text \<open>
  C5. Participant \<open>u\<close>, a user of the store, joins session \<open>s\<close> on a connection
  (fresh, or already bound to \<open>u\<close>) and is then the only member; the connection closes
  with no session-leave sent. Then the membership set of \<open>s\<close> is empty, and over the join
  and the close together \<open>endSession(s)\<close> is called exactly once and
  \<open>updateUser(u, {isOnline: false})\<close> exactly once. Identifiers are nonzero and the two
  user calls of the close handler do not reject.
\<close>

theorem last_member_disconnects:
  assumes "u \<noteq> 0" and "s \<noteq> 0"
    and "getUser sto (Some u)"
    and "\<not> rejects sto (GetUser (Some u))" and "\<not> rejects sto (UpdateUser (Some u) False)"
    and "m_type d = Some SESSION_JOIN" and "m_userId d = Some u" and "m_sessionId d = Some s"
    and "userId (conn st w) = None \<or> userId (conn st w) = Some u"
    and "members (fst (on_message sto st w (Parsed d))) (Some s) = [Some u]"
  shows "members (fst (on_close sto (fst (on_message sto st w (Parsed d))) w)) (Some s) = []
       \<and> calls (EndSession (Some s))
            (snd (on_message sto st w (Parsed d))
             @ snd (on_close sto (fst (on_message sto st w (Parsed d))) w)) = 1
       \<and> calls (UpdateUser (Some u) False)
            (snd (on_message sto st w (Parsed d))
             @ snd (on_close sto (fst (on_message sto st w (Parsed d))) w)) = 1"
proof -
  let ?st1 = "fst (on_message sto st w (Parsed d))"
  have b: "bound_user st w d = Some u"
    using assms(1,7,9) by (auto simp: bound_user_def truthy_def)
  have u1: "userId (conn ?st1 w) = Some u" and s1: "sessionId (conn ?st1 w) = Some s"
    using closure_after_join(1,2) [OF assms(6), of sto st w] b assms(8) by simp_all
  note c = on_close_last_member [OF u1 assms(1) s1 assms(2) assms(3,4,5) assms(10)]
  show ?thesis
    using c(1,3,4) by (simp add: calls_append closure_after_join(4) [OF assms(6)])
qed

theorem last_member_disconnects_witness:
  "(1::int) \<noteq> 0 \<and> (7::int) \<noteq> 0 \<and> getUser (MemStorage [1, 2]) (Some 1)
   \<and> \<not> rejects (MemStorage [1, 2]) (GetUser (Some 1))
   \<and> \<not> rejects (MemStorage [1, 2]) (UpdateUser (Some 1) False)
   \<and> m_type join17 = Some SESSION_JOIN \<and> m_userId join17 = Some 1 \<and> m_sessionId join17 = Some 7
   \<and> (userId (conn init 0) = None \<or> userId (conn init 0) = Some 1)
   \<and> members (fst (on_message (MemStorage [1, 2]) init 0 (Parsed join17))) (Some 7) = [Some 1]
   \<and> members (fst (on_close (MemStorage [1, 2]) one_joined 0)) (Some 7) = []
   \<and> calls (EndSession (Some 7))
        (snd (on_message (MemStorage [1, 2]) init 0 (Parsed join17))
         @ snd (on_close (MemStorage [1, 2]) one_joined 0)) = 1
   \<and> calls (UpdateUser (Some 1) False)
        (snd (on_message (MemStorage [1, 2]) init 0 (Parsed join17))
         @ snd (on_close (MemStorage [1, 2]) one_joined 0)) = 1"
proof -
  have g: "getUser (MemStorage [1, 2]) (Some 1)"
    "\<not> rejects (MemStorage [1, 2]) (GetUser (Some 1))"
    "\<not> rejects (MemStorage [1, 2]) (UpdateUser (Some 1) False)"
    by (simp_all add: MemStorage_def)
  have j: "m_type join17 = Some SESSION_JOIN" "m_userId join17 = Some 1" "m_sessionId join17 = Some 7"
    by (simp_all add: join17_def)
  have i: "userId (conn init 0) = None \<or> userId (conn init 0) = Some 1"
    by (simp add: init_def)
  have m: "members (fst (on_message (MemStorage [1, 2]) init 0 (Parsed join17))) (Some 7) = [Some 1]"
    using members_one_joined by (simp add: one_joined_def)
  have "(1::int) \<noteq> 0" and "(7::int) \<noteq> 0"
    by simp_all
  from last_member_disconnects [OF this g j i m] g j i m
  show ?thesis
    by (simp add: one_joined_def)
qed

subsection \<open>Malformed messages and failing storage calls\<close>










subsection \<open>Handlers, field by field\<close>

lemma run_append:
  "run sto st (xs @ ys)
   = (fst (run sto (fst (run sto st xs)) ys),
      snd (run sto st xs) @ snd (run sto (fst (run sto st xs)) ys))"
  by (induction xs arbitrary: st) (simp_all add: split_beta)

lemma run_snoc:
  "fst (run sto st (xs @ [e])) = fst (step sto (fst (run sto st xs)) e)"
  "snd (run sto st (xs @ [e])) = snd (run sto st xs) @ snd (step sto (fst (run sto st xs)) e)"
  by (simp_all add: run_append split_beta)

lemma userId_on_message:
  "userId (conn (fst (on_message sto st w (Parsed d))) w')
   = (if w' = w then bound_user st w d else userId (conn st w'))"
  by (simp add: on_message_Parsed conn_server_action)
     (simp add: join_session_def Let_def bind_user_def)

lemma sessionId_on_message:
  "sessionId (conn (fst (on_message sto st w (Parsed d))) w')
   = (if w' = w \<and> m_type d = Some SESSION_JOIN then m_sessionId d else sessionId (conn st w'))"
  by (simp add: on_message_Parsed conn_server_action)
     (simp add: join_session_def Let_def bind_user_def)

lemma connectedClients_on_message:
  "connectedClients (fst (on_message sto st w (Parsed d)))
   = (if m_type d = Some SESSION_JOIN then (connectedClients st)(bound_user st w d \<mapsto> w)
      else connectedClients st)"
  by (simp add: on_message_Parsed connectedClients_server_action)
     (simp add: join_session_def Let_def bind_user_def)

lemma on_message_Unparseable: "on_message sto st w Unparseable = (st, [LogError])"
  by (simp add: on_message_def)

lemma conn_leave_on_close: "conn (fst (leave_on_close sto st uid sid)) = conn st"
  by (simp add: leave_on_close_def Let_def split: option.splits)

lemma connectedClients_leave_on_close:
  "connectedClients (fst (leave_on_close sto st uid sid)) = connectedClients st"
  by (simp add: leave_on_close_def Let_def split: option.splits)

lemma userId_on_close: "userId (conn (fst (on_close sto st w)) w') = userId (conn st w')"
  by (simp add: on_close_def Let_def split_beta conn_leave_on_close)

lemma sessionId_on_close: "sessionId (conn (fst (on_close sto st w)) w') = sessionId (conn st w')"
  by (simp add: on_close_def Let_def split_beta conn_leave_on_close)

lemma connectedClients_on_close:
  "connectedClients (fst (on_close sto st w))
   = (if truthy (userId (conn st w)) then (connectedClients st)(userId (conn st w) := None)
      else connectedClients st)"
  by (simp add: on_close_def Let_def split_beta connectedClients_leave_on_close)

lemma bound_user_identified:
  assumes "userId (conn st w) = None \<or> userId (conn st w) = Some (uid w)"
    and "m_userId d = Some (uid w)"
  shows "bound_user st w d = Some (uid w)"
  using assms by (auto simp: bound_user_def truthy_def)

subsection \<open>The registry along a trace\<close>

lemma registry_invariant:
  assumes inj: "inj uid" and nz: "\<forall>w. uid w \<noteq> 0"
  shows "\<forall>e \<in> set evs. identified uid e \<Longrightarrow>
         (\<forall>w. userId (conn (fst (run sto init evs)) w) = None
              \<or> userId (conn (fst (run sto init evs)) w) = Some (uid w))
       \<and> (\<forall>w. joined_open w (rev evs) \<longrightarrow> userId (conn (fst (run sto init evs)) w) = Some (uid w))
       \<and> (\<forall>k w. connectedClients (fst (run sto init evs)) k = Some w
                \<longleftrightarrow> k = Some (uid w) \<and> joined_open w (rev evs))"
proof (induction evs rule: rev_induct)
  case Nil
  show ?case by (simp add: init_def)
next
  case (snoc e evs)
  let ?st = "fst (run sto init evs)"
  have ih: "\<forall>w. userId (conn ?st w) = None \<or> userId (conn ?st w) = Some (uid w)"
    "\<forall>w. joined_open w (rev evs) \<longrightarrow> userId (conn ?st w) = Some (uid w)"
    "\<forall>k w. connectedClients ?st k = Some w \<longleftrightarrow> k = Some (uid w) \<and> joined_open w (rev evs)"
    using snoc by simp_all
  have ide: "identified uid e"
    using snoc.prems by simp
  have uq: "uid a = uid b \<longleftrightarrow> a = b" for a b
    using inj by (simp add: inj_eq)
  show ?case
  proof (cases e)
    case (Close w)
    have t: "truthy (userId (conn ?st w)) \<longleftrightarrow> userId (conn ?st w) = Some (uid w)"
      using ih(1) [rule_format, of w] nz by (auto simp: truthy_def)
    have n: "\<not> truthy (userId (conn ?st w)) \<Longrightarrow> \<not> joined_open w (rev evs)"
      using ih(2) t by blast
    show ?thesis
      using ih n t
      by (auto simp: Close run_snoc userId_on_close connectedClients_on_close uq)
  next
    case (Message w r)
    show ?thesis
    proof (cases r)
      case Unparseable
      show ?thesis
        using ih by (simp add: Message Unparseable run_snoc on_message_Unparseable)
    next
      case (Parsed d)
      have b: "bound_user ?st w d = Some (uid w)"
        using ide ih(1) by (simp add: Message Parsed bound_user_identified)
      show ?thesis
        using ih
        by (auto simp: Message Parsed run_snoc userId_on_message connectedClients_on_message b uq)
    qed
  qed
qed

text \<open>
  C4, as the code has it. Every connection speaks for one participant of its own, with a
  nonzero identifier. After any trace from the initial state, a connection is in the
  Connection Registry if and only if it has sent a session-join and has not closed since; it
  is then registered under its participant.
\<close>

theorem registry_iff_joined_and_open:
  assumes "inj uid" and "\<forall>w. uid w \<noteq> 0" and "\<forall>e \<in> set evs. identified uid e"
  shows "((\<exists>k. connectedClients (fst (run sto init evs)) k = Some w) \<longleftrightarrow> joined_open w (rev evs))
       \<and> (joined_open w (rev evs) \<longrightarrow>
            connectedClients (fst (run sto init evs)) (Some (uid w)) = Some w)"
  using registry_invariant [OF assms(1,2), of evs sto] assms(3) by blast

theorem registry_iff_joined_and_open_witness:
  "inj (\<lambda>w. int w + 1) \<and> (\<forall>w. int w + 1 \<noteq> 0)
   \<and> identified (\<lambda>w. int w + 1) (Message 0 (Parsed join17))
   \<and> identified (\<lambda>w. int w + 1) (Message 1 (Parsed join27))
   \<and> identified (\<lambda>w. int w + 1) (Close 1)
   \<and> (\<exists>k. connectedClients (fst (run (MemStorage [1, 2]) init
              [Message 0 (Parsed join17), Message 1 (Parsed join27), Close 1])) k = Some 0)
   \<and> \<not> (\<exists>k. connectedClients (fst (run (MemStorage [1, 2]) init
              [Message 0 (Parsed join17), Message 1 (Parsed join27), Close 1])) k = Some 1)"
proof -
  let ?evs = "[Message 0 (Parsed join17), Message 1 (Parsed join27), Close 1]"
  have i: "inj (\<lambda>w. int w + 1)"
    by (simp add: inj_def)
  have n: "\<forall>w. int w + 1 \<noteq> 0"
    by auto
  have e: "\<forall>e \<in> set ?evs. identified (\<lambda>w. int w + 1) e"
    by (simp add: join17_def join27_def)
  have j: "joined_open 0 (rev ?evs)" "\<not> joined_open 1 (rev ?evs)"
    by (simp_all add: join17_def join27_def)
  have e': "identified (\<lambda>w. int w + 1) (Message 0 (Parsed join17))"
    "identified (\<lambda>w. int w + 1) (Message 1 (Parsed join27))"
    "identified (\<lambda>w. int w + 1) (Close 1)"
    using e by simp_all
  show ?thesis
    using i n e' j registry_iff_joined_and_open [OF i n e, of "MemStorage [1, 2]" 0]
      registry_iff_joined_and_open [OF i n e, of "MemStorage [1, 2]" 1]
    by blast
qed

text \<open>
  C4 as stated fails: after a first event that is a chat message the connection is open and
  its participant has no registry entry.
\<close>

theorem registry_counterexample:
  "connectedClients (fst (on_message (MemStorage [1, 2]) init 0 (Parsed chat17))) (Some 1) = None
   \<and> readyState (conn (fst (on_message (MemStorage [1, 2]) init 0 (Parsed chat17))) 0) = OPEN"
  by (simp add: init_def chat17_def relay_defs)

subsection \<open>Membership along a trace of joins and leaves\<close>

lemma members_on_message_join:
  "m_type d = Some SESSION_JOIN \<Longrightarrow>
   members (fst (on_message sto st w (Parsed d))) k
   = (if k = m_sessionId d then Set_add (bound_user st w d) (members st k) else members st k)"
  by (simp add: on_message_Parsed server_action_join)
     (simp add: join_session_def Let_def bind_user_def members_def split: option.splits)

lemma Set_delete_Nil: "Set_delete x [] = []"
  by (simp add: Set_delete_def)

lemma members_on_message_leave:
  "m_type d = Some SESSION_LEAVE \<Longrightarrow>
   members (fst (on_message sto st w (Parsed d))) k
   = (if truthy (sessionId (conn st w)) \<and> truthy (bound_user st w d) \<and> k = sessionId (conn st w)
      then Set_delete (bound_user st w d) (members st k) else members st k)"
  by (simp add: on_message_Parsed join_session_other)
     (simp add: server_action_def Let_def bind_user_def members_def Set_delete_Nil
           split: option.splits)

lemma membership_invariant:
  assumes inj: "inj uid" and nz: "\<forall>w. uid w \<noteq> 0" and sz: "s \<noteq> 0"
  shows "\<forall>e \<in> set evs. join_or_leave uid s e \<Longrightarrow>
         (\<forall>w. userId (conn (fst (run sto init evs)) w) = None
              \<or> userId (conn (fst (run sto init evs)) w) = Some (uid w))
       \<and> (\<forall>w. sessionId (conn (fst (run sto init evs)) w) = None
              \<or> sessionId (conn (fst (run sto init evs)) w) = Some s)
       \<and> (\<forall>w. joined_since_left w (rev evs) \<longrightarrow>
              sessionId (conn (fst (run sto init evs)) w) = Some s)
       \<and> set (members (fst (run sto init evs)) (Some s))
           = {Some (uid w) | w. joined_since_left w (rev evs)}"
proof (induction evs rule: rev_induct)
  case Nil
  show ?case by (simp add: init_def members_def)
next
  case (snoc e evs)
  let ?st = "fst (run sto init evs)"
  have ih: "\<forall>w. userId (conn ?st w) = None \<or> userId (conn ?st w) = Some (uid w)"
    "\<forall>w. sessionId (conn ?st w) = None \<or> sessionId (conn ?st w) = Some s"
    "\<forall>w. joined_since_left w (rev evs) \<longrightarrow> sessionId (conn ?st w) = Some s"
    "set (members ?st (Some s)) = {Some (uid w) | w. joined_since_left w (rev evs)}"
    using snoc by simp_all
  have uq: "uid a = uid b \<longleftrightarrow> a = b" for a b
    using inj by (simp add: inj_eq)
  from snoc.prems have "join_or_leave uid s e"
    by simp
  then obtain w d where e: "e = Message w (Parsed d)"
    and k: "m_type d = Some SESSION_JOIN \<or> m_type d = Some SESSION_LEAVE"
    and u: "m_userId d = Some (uid w)" and sd: "m_sessionId d = Some s"
    by (cases "(uid, s, e)" rule: join_or_leave.cases) auto
  have b: "bound_user ?st w d = Some (uid w)"
    using u ih(1) by (simp add: bound_user_identified)
  have tb: "truthy (Some (uid w))" and ts: "truthy (Some s)"
    using nz sz by (simp_all add: truthy_def)
  from k show ?case
  proof
    assume j: "m_type d = Some SESSION_JOIN"
    show ?thesis
      using ih
      by (auto simp: e run_snoc userId_on_message sessionId_on_message j b sd
            members_on_message_join set_Set_add)
  next
    assume l: "m_type d = Some SESSION_LEAVE"
    have nj: "\<not> truthy (sessionId (conn ?st w)) \<Longrightarrow> \<not> joined_since_left w (rev evs)"
      using ih(3) ts by auto
    have sv: "truthy (sessionId (conn ?st w)) \<Longrightarrow> sessionId (conn ?st w) = Some s"
      using ih(2) [rule_format, of w] by (auto simp: truthy_def)
    show ?thesis
      using ih nj sv tb
      by (auto simp: e run_snoc userId_on_message sessionId_on_message l b
            members_on_message_leave set_Set_delete uq)
  qed
qed

text \<open>
  C3. Every participant has a connection of its own and a nonzero identifier, and \<open>s\<close>
  is a nonzero session. After any sequence of session-joins and session-leaves for \<open>s\<close>,
  starting from the initial state, the members of \<open>s\<close> are exactly the participants whose
  most recent join is later than their most recent leave.
\<close>

theorem membership_is_joined_since_left:
  assumes "inj uid" and "\<forall>w. uid w \<noteq> 0" and "s \<noteq> 0"
    and "\<forall>e \<in> set evs. join_or_leave uid s e"
  shows "set (members (fst (run sto init evs)) (Some s))
         = {Some (uid w) | w. joined_since_left w (rev evs)}"
  using membership_invariant [OF assms(1,2,3), of evs sto] assms(4) by blast

theorem membership_is_joined_since_left_witness:
  "inj (\<lambda>w. int w + 1) \<and> (\<forall>w. int w + 1 \<noteq> 0) \<and> (7::int) \<noteq> 0
   \<and> join_or_leave (\<lambda>w. int w + 1) 7 (Message 0 (Parsed join17))
   \<and> join_or_leave (\<lambda>w. int w + 1) 7 (Message 1 (Parsed join27))
   \<and> join_or_leave (\<lambda>w. int w + 1) 7 (Message 0 (Parsed leave17))
   \<and> set (members (fst (run (MemStorage [1, 2]) init
         [Message 0 (Parsed join17), Message 1 (Parsed join27), Message 0 (Parsed leave17)])) (Some 7))
       = {Some 2}"
proof -
  let ?evs = "[Message 0 (Parsed join17), Message 1 (Parsed join27), Message 0 (Parsed leave17)]"
  have i: "inj (\<lambda>w. int w + 1)"
    by (simp add: inj_def)
  have n: "\<forall>w. int w + 1 \<noteq> 0"
    by auto
  have z: "(7::int) \<noteq> 0"
    by simp
  have e: "\<forall>e \<in> set ?evs. join_or_leave (\<lambda>w. int w + 1) 7 e"
    by (simp add: join17_def join27_def leave17_def)
  have j: "joined_since_left w (rev ?evs) \<longleftrightarrow> w = 1" for w
    by (simp add: join17_def join27_def leave17_def)
  have "{Some (int w + 1) | w. joined_since_left w (rev ?evs)} = {Some 2}"
    unfolding j by auto
  then have "set (members (fst (run (MemStorage [1, 2]) init ?evs)) (Some 7)) = {Some 2}"
    using membership_is_joined_since_left [OF i n z e, of "MemStorage [1, 2]"] by (simp only:)
  moreover have "join_or_leave (\<lambda>w. int w + 1) 7 (Message 0 (Parsed join17))"
    "join_or_leave (\<lambda>w. int w + 1) 7 (Message 1 (Parsed join27))"
    "join_or_leave (\<lambda>w. int w + 1) 7 (Message 0 (Parsed leave17))"
    using e by simp_all
  ultimately show ?thesis
    using i n by simp
qed

subsection \<open>Ending a session\<close>

lemma calls_server_action_leave:
  assumes "m_type d = Some SESSION_LEAVE"
    and "truthy (sessionId (conn st w))" and "truthy (userId (conn st w))"
  shows "calls (EndSession k) (snd (server_action sto st w d))
         = (if k = sessionId (conn st w) \<and> sessionClients st k \<noteq> None
               \<and> Set_delete (userId (conn st w)) (members st k) = [] then 1 else 0)"
  using assms
  by (auto simp: server_action_def Let_def await_call_def calls_def members_def
           split: option.splits)

lemma calls_on_message_leave:
  assumes "m_type d = Some SESSION_LEAVE"
    and "truthy (sessionId (conn st w))" and "truthy (bound_user st w d)"
  shows "calls (EndSession k) (snd (on_message sto st w (Parsed d)))
         = (if k = sessionId (conn st w) \<and> sessionClients st k \<noteq> None
               \<and> Set_delete (bound_user st w d) (members st k) = [] then 1 else 0)"
proof -
  let ?b = "bind_user st w d"
  have "calls (EndSession k) (snd (server_action sto ?b w d))
        = (if k = sessionId (conn ?b w) \<and> sessionClients ?b k \<noteq> None
               \<and> Set_delete (userId (conn ?b w)) (members ?b k) = [] then 1 else 0)"
    using assms
    by (intro calls_server_action_leave) (simp_all add: sessionId_bind_user userId_bind_user)
  then show ?thesis
    using assms(1)
    by (simp add: on_message_Parsed join_session_other calls_append calls_broadcast
          sessionId_bind_user userId_bind_user members_bind_user maps_bind_user)
qed

lemma calls_set_offline: "calls (EndSession k) (fst (set_offline sto uid)) = 0"
  by (simp add: set_offline_def calls_def)

lemma leave_on_close_effect:
  assumes "truthy sid"
  shows "members (fst (leave_on_close sto st uid sid)) k
         = (if k = sid then Set_delete uid (members st k) else members st k)"
    and "calls (EndSession k) (snd (leave_on_close sto st uid sid))
         = (if k = sid \<and> sessionClients st k \<noteq> None \<and> Set_delete uid (members st k) = []
            then 1 else 0)"
proof -
  have c: "calls (EndSession k) (concat (map (deliver st' m) xs)) = 0" for st' m xs
    by (induction xs) (simp_all add: calls_def deliver_def split: option.splits)
  show "members (fst (leave_on_close sto st uid sid)) k
         = (if k = sid then Set_delete uid (members st k) else members st k)"
    using assms
    by (simp add: leave_on_close_def Let_def members_def Set_delete_Nil split: option.splits)
  show "calls (EndSession k) (snd (leave_on_close sto st uid sid))
         = (if k = sid \<and> sessionClients st k \<noteq> None \<and> Set_delete uid (members st k) = []
            then 1 else 0)"
  proof (cases "sessionClients st sid")
    case None
    then show ?thesis
      using assms by (auto simp: leave_on_close_def Let_def calls_def)
  next
    case (Some xs)
    then show ?thesis
      using assms
      by (auto simp: leave_on_close_def Let_def members_def calls_append c)
         (simp_all add: calls_def)
  qed
qed

lemma server_action_not_leave:
  assumes "m_type d \<noteq> Some SESSION_LEAVE"
  shows "fst (server_action sto st w d) = st"
    and "calls (EndSession k) (snd (server_action sto st w d)) = 0"
  using assms
  by (simp_all add: server_action_def Let_def await_call_def calls_def
        split: option.splits MessageType.splits)

lemma server_action_leave_idle:
  assumes "m_type d = Some SESSION_LEAVE"
    and "\<not> (truthy (sessionId (conn st w)) \<and> truthy (userId (conn st w)))"
  shows "fst (server_action sto st w d) = st"
    and "calls (EndSession k) (snd (server_action sto st w d)) = 0"
  using assms by (auto simp: server_action_def Let_def calls_def)

lemma on_message_idle:
  assumes "m_type d \<noteq> Some SESSION_JOIN"
    and "\<not> (m_type d = Some SESSION_LEAVE
            \<and> truthy (sessionId (conn st w)) \<and> truthy (bound_user st w d))"
  shows "members (fst (on_message sto st w (Parsed d))) k = members st k"
    and "calls (EndSession k) (snd (on_message sto st w (Parsed d))) = 0"
proof -
  let ?b = "bind_user st w d"
  have "fst (server_action sto ?b w d) = ?b
        \<and> calls (EndSession k) (snd (server_action sto ?b w d)) = 0"
  proof (cases "m_type d = Some SESSION_LEAVE")
    case True
    then have "\<not> (truthy (sessionId (conn ?b w)) \<and> truthy (userId (conn ?b w)))"
      using assms(2) by (simp add: sessionId_bind_user userId_bind_user)
    from server_action_leave_idle [OF True this] show ?thesis by simp
  next
    case False
    from server_action_not_leave [OF this] show ?thesis by simp
  qed
  then show "members (fst (on_message sto st w (Parsed d))) k = members st k"
    and "calls (EndSession k) (snd (on_message sto st w (Parsed d))) = 0"
    using assms(1)
    by (simp_all add: on_message_Parsed join_session_other members_bind_user calls_append
          calls_broadcast)
qed

lemma on_close_idle:
  assumes "\<not> (truthy (userId (conn st w)) \<and> snd (set_offline sto (userId (conn st w)))
              \<and> truthy (sessionId (conn st w)))"
  shows "members (fst (on_close sto st w)) k = members st k"
    and "calls (EndSession k) (snd (on_close sto st w)) = 0"
  using assms calls_set_offline [of k sto "userId (conn st w)"]
  by (auto simp: on_close_def Let_def split_beta members_def leave_on_close_def calls_def
        calls_append)

lemma on_close_removes:
  assumes "truthy (userId (conn st w))" and "snd (set_offline sto (userId (conn st w)))"
    and "truthy (sessionId (conn st w))"
  shows "members (fst (on_close sto st w)) k
           = (if k = sessionId (conn st w)
              then Set_delete (userId (conn st w)) (members st k) else members st k)"
    and "calls (EndSession k) (snd (on_close sto st w))
           = (if k = sessionId (conn st w) \<and> sessionClients st k \<noteq> None
                 \<and> Set_delete (userId (conn st w)) (members st k) = [] then 1 else 0)"
proof -
  let ?st1 = "st\<lparr> conn := (conn st)(w := (conn st w)\<lparr> readyState := CLOSED \<rparr>),
                   connectedClients := (connectedClients st)(userId (conn st w) := None) \<rparr>"
  have m1: "members ?st1 j = members st j" "sessionClients ?st1 j = sessionClients st j" for j
    by (simp_all add: members_def)
  show "members (fst (on_close sto st w)) k
           = (if k = sessionId (conn st w)
              then Set_delete (userId (conn st w)) (members st k) else members st k)"
    and "calls (EndSession k) (snd (on_close sto st w))
           = (if k = sessionId (conn st w) \<and> sessionClients st k \<noteq> None
                 \<and> Set_delete (userId (conn st w)) (members st k) = [] then 1 else 0)"
    using assms(1,2) calls_set_offline [of k sto "userId (conn st w)"]
      leave_on_close_effect [OF assms(3), where sto = sto and st = ?st1
        and uid = "userId (conn st w)" and k = k]
    by (simp_all add: on_close_def Let_def split_beta calls_append m1)
qed

lemma step_effect:
  assumes "\<not> is_join e"
  shows "members (fst (step sto st e)) k
           = (if removes sto st e \<and> k = remembered st e
              then Set_delete (leaver st e) (members st k) else members st k)"
    and "calls (EndSession k) (snd (step sto st e))
           = (if removes sto st e \<and> k = remembered st e \<and> sessionClients st k \<noteq> None
                 \<and> Set_delete (leaver st e) (members st k) = [] then 1 else 0)"
proof -
  have "members (fst (step sto st e)) k
           = (if removes sto st e \<and> k = remembered st e
              then Set_delete (leaver st e) (members st k) else members st k)
      \<and> calls (EndSession k) (snd (step sto st e))
           = (if removes sto st e \<and> k = remembered st e \<and> sessionClients st k \<noteq> None
                 \<and> Set_delete (leaver st e) (members st k) = [] then 1 else 0)"
  proof (cases e)
    case (Close w)
    show ?thesis
    proof (cases "removes sto st e")
      case True
      then show ?thesis
        using on_close_removes [where st = st and w = w and sto = sto and k = k] by (simp add: Close remembered_def)
    next
      case False
      then show ?thesis
        using on_close_idle [where st = st and w = w and sto = sto and k = k] by (auto simp: Close)
    qed
  next
    case (Message w r)
    show ?thesis
    proof (cases r)
      case Unparseable
      then show ?thesis
        by (simp add: Message on_message_Unparseable calls_def)
    next
      case (Parsed d)
      have nj: "m_type d \<noteq> Some SESSION_JOIN"
        using assms by (simp add: Message Parsed)
      show ?thesis
      proof (cases "removes sto st e")
        case True
        then have l: "m_type d = Some SESSION_LEAVE" and t: "truthy (sessionId (conn st w))"
          "truthy (bound_user st w d)"
          by (simp_all add: Message Parsed)
        show ?thesis
          using True t
          by (simp add: Message Parsed remembered_def members_on_message_leave [OF l]
                calls_on_message_leave [OF l t])
      next
        case False
        then show ?thesis
          using on_message_idle [OF nj, where st = st and w = w and sto = sto and k = k] by (auto simp: Message Parsed)
      qed
    qed
  qed
  then show "members (fst (step sto st e)) k
           = (if removes sto st e \<and> k = remembered st e
              then Set_delete (leaver st e) (members st k) else members st k)"
    and "calls (EndSession k) (snd (step sto st e))
           = (if removes sto st e \<and> k = remembered st e \<and> sessionClients st k \<noteq> None
                 \<and> Set_delete (leaver st e) (members st k) = [] then 1 else 0)"
    by simp_all
qed

lemma Set_delete_empty_members:
  "sessionClients st k = Some [] \<Longrightarrow> Set_delete x (members st k) = []"
  by (simp add: members_def Set_delete_def)

lemma unrepeated_step:
  assumes "\<not> is_join e" and "\<not> (after_end sto st e \<and> remembered st e = k)"
  shows "calls (EndSession k) (snd (step sto st e)) \<le> 1
       \<and> (calls (EndSession k) (snd (step sto st e)) = 1 \<longrightarrow>
            members (fst (step sto st e)) k = [] \<and> members st k \<noteq> [])
       \<and> (calls (EndSession k) (snd (step sto st e)) = 0 \<longrightarrow>
            (members (fst (step sto st e)) k = [] \<longleftrightarrow> members st k = []))"
proof (cases "removes sto st e \<and> k = remembered st e")
  case False
  then show ?thesis
    using step_effect [OF assms(1), where sto = sto and st = st and k = k] by auto
next
  case True
  then have n: "sessionClients st k \<noteq> Some []"
    using assms(2) by (auto simp: after_end_def)
  show ?thesis
  proof (cases "sessionClients st k")
    case None
    then show ?thesis
      using True step_effect [OF assms(1), where sto = sto and st = st and k = k] by (simp add: members_def Set_delete_def)
  next
    case (Some xs)
    then have "members st k = xs" and "xs \<noteq> []"
      using n by (simp_all add: members_def)
    then show ?thesis
      using True Some step_effect [OF assms(1), where sto = sto and st = st and k = k] by auto
  qed
qed

lemma unrepeated_after_empty:
  "unrepeated sto k st evs \<Longrightarrow> members st k = [] \<Longrightarrow>
   calls (EndSession k) (snd (run sto st evs)) = 0 \<and> members (fst (run sto st evs)) k = []"
proof (induction evs arbitrary: st)
  case Nil
  then show ?case by (simp add: calls_def)
next
  case (Cons e evs)
  have d: "\<not> is_join e" "\<not> (after_end sto st e \<and> remembered st e = k)"
    and r: "unrepeated sto k (fst (step sto st e)) evs"
    using Cons.prems(1) by simp_all
  have c: "calls (EndSession k) (snd (step sto st e)) = 0"
    and m: "members (fst (step sto st e)) k = []"
    using unrepeated_step [OF d] Cons.prems(2) by auto
  show ?case
    using Cons.IH [OF r m] c by (simp add: split_beta calls_append)
qed

lemma unrepeated_once:
  "unrepeated sto k st evs \<Longrightarrow>
   calls (EndSession k) (snd (run sto st evs)) \<le> 1
   \<and> (members st k \<noteq> [] \<and> members (fst (run sto st evs)) k = [] \<longrightarrow>
        calls (EndSession k) (snd (run sto st evs)) = 1)"
proof (induction evs arbitrary: st)
  case Nil
  then show ?case by (simp add: calls_def)
next
  case (Cons e evs)
  let ?st1 = "fst (step sto st e)"
  have d: "\<not> is_join e" "\<not> (after_end sto st e \<and> remembered st e = k)"
    and r: "unrepeated sto k ?st1 evs"
    using Cons.prems by simp_all
  note s = unrepeated_step [OF d]
  show ?case
  proof (cases "calls (EndSession k) (snd (step sto st e)) = 0")
    case True
    then show ?thesis
      using Cons.IH [OF r] s by (simp add: split_beta calls_append)
  next
    case False
    then have o: "calls (EndSession k) (snd (step sto st e)) = 1"
      using s by linarith
    then have "members ?st1 k = []"
      using s by blast
    from unrepeated_after_empty [OF r this] o show ?thesis
      by (simp add: split_beta calls_append)
  qed
qed

lemma after_end_again:
  assumes "after_end sto st e"
  shows "calls (EndSession (remembered st e)) (snd (step sto st e)) = 1"
proof -
  have r: "removes sto st e" and s: "sessionClients st (remembered st e) = Some []"
    using assms by (simp_all add: after_end_def)
  have "\<not> is_join e"
    using r by (cases "(sto, st, e)" rule: removes.cases) auto
  from step_effect(2) [OF this, where k = "remembered st e" and sto = sto and st = st] r s show ?thesis
    by (simp add: Set_delete_empty_members)
qed

text \<open>
  C1, as the code has it. Take a session \<open>k\<close> and any sequence of events without a
  session-join in which no leave or close arrives on a connection that remembers \<open>k\<close>
  while the membership set of \<open>k\<close> is there and already empty. Then \<open>endSession\<close> is
  called at most once for \<open>k\<close>, and exactly once if the membership set of \<open>k\<close> goes
  from non-empty to empty. And every leave or close that does arrive on a connection whose
  remembered session has an empty membership set calls \<open>endSession\<close> for that session
  once more.
\<close>

theorem end_session_once:
  "(unrepeated sto k st evs \<longrightarrow>
      calls (EndSession k) (snd (run sto st evs)) \<le> 1
      \<and> (members st k \<noteq> [] \<and> members (fst (run sto st evs)) k = [] \<longrightarrow>
           calls (EndSession k) (snd (run sto st evs)) = 1))
   \<and> (after_end sto st e \<longrightarrow>
        calls (EndSession (remembered st e)) (snd (step sto st e)) = 1)"
  using unrepeated_once [where sto = sto and st = st and evs = evs and k = k]
    after_end_again [where sto = sto and st = st and e = e] by blast

lemma after_end_members: "after_end sto st e \<Longrightarrow> members st (remembered st e) = []"
  by (simp add: after_end_def members_def)

lemma MemStorage_offline: "snd (set_offline (MemStorage us) uid)"
  by (simp add: set_offline_def MemStorage_def)

theorem end_session_once_witness:
  "unrepeated (MemStorage [1, 2]) (Some 7) two_joined
      [Message 0 (Parsed leave17), Close 0, Close 1]
   \<and> members two_joined (Some 7) \<noteq> []
   \<and> members (fst (run (MemStorage [1, 2]) two_joined
         [Message 0 (Parsed leave17), Close 0, Close 1])) (Some 7) = []
   \<and> calls (EndSession (Some 7)) (snd (run (MemStorage [1, 2]) two_joined
         [Message 0 (Parsed leave17), Close 0, Close 1])) = 1
   \<and> after_end (MemStorage [1, 2])
        (fst (on_message (MemStorage [1, 2]) one_joined 0 (Parsed leave17))) (Close 0)
   \<and> calls (EndSession (Some 7))
        (snd (on_close (MemStorage [1, 2])
               (fst (on_message (MemStorage [1, 2]) one_joined 0 (Parsed leave17))) 0)) = 1"
proof -
  let ?M = "MemStorage [1, 2]"
  let ?evs = "[Message 0 (Parsed leave17), Close 0, Close 1]"
  let ?s1 = "fst (on_message ?M two_joined 0 (Parsed leave17))"
  let ?s2 = "fst (on_close ?M ?s1 0)"
  let ?s3 = "fst (on_close ?M ?s2 1)"
  have l: "m_type leave17 = Some SESSION_LEAVE"
    by (simp add: leave17_def)
  have c1: "userId (conn ?s1 0) = Some 1" "sessionId (conn ?s1 0) = Some 7"
    "userId (conn ?s1 1) = Some 2" "sessionId (conn ?s1 1) = Some 7"
    by (simp_all add: userId_on_message sessionId_on_message l)
       (simp_all add: two_joined_eq bound_user_def truthy_def)
  have m0: "members two_joined (Some 7) = [Some 1, Some 2]"
    by (simp add: two_joined_eq members_def)
  have m1: "members ?s1 (Some 7) = [Some 2]"
    by (simp add: members_on_message_leave [OF l])
       (simp add: two_joined_eq bound_user_def truthy_def members_def Set_delete_def)
  have t: "truthy (Some 1)" "truthy (Some 2)" "truthy (Some 7)"
    by (simp_all add: truthy_def)
  have m2: "members ?s2 (Some 7) = [Some 2]"
    using on_close_removes(1) [where st = ?s1 and w = 0 and sto = ?M and k = "Some 7"] t c1 m1
    by (simp add: MemStorage_offline Set_delete_def)
  have c2: "userId (conn ?s2 1) = Some 2" "sessionId (conn ?s2 1) = Some 7"
    using c1 by (simp_all add: userId_on_close sessionId_on_close)
  have m3: "members ?s3 (Some 7) = []"
    using on_close_removes(1) [where st = ?s2 and w = 1 and sto = ?M and k = "Some 7"] t c2 m2
    by (simp add: MemStorage_offline Set_delete_def)
  have n1: "\<not> after_end ?M two_joined (Message 0 (Parsed leave17))"
    using after_end_members [of ?M two_joined "Message 0 (Parsed leave17)"] m0
    by (auto simp: remembered_def two_joined_eq)
  have n2: "\<not> after_end ?M ?s1 (Close 0)"
    using after_end_members [of ?M ?s1 "Close 0"] m1 c1 by (auto simp: remembered_def)
  have n3: "\<not> after_end ?M ?s2 (Close 1)"
    using after_end_members [of ?M ?s2 "Close 1"] m2 c2 by (auto simp: remembered_def)
  have u: "unrepeated ?M (Some 7) two_joined ?evs"
    using n1 n2 n3 by (simp add: l)
  have ne: "members two_joined (Some 7) \<noteq> []"
    by (simp add: m0)
  have f: "members (fst (run ?M two_joined ?evs)) (Some 7) = []"
    using m3 by (simp add: split_beta)
  let ?e1 = "fst (on_message ?M one_joined 0 (Parsed leave17))"
  have a: "after_end ?M ?e1 (Close 0)"
    by (simp add: after_end_def remembered_def MemStorage_offline userId_on_message
          sessionId_on_message l)
       (simp add: one_joined_eq leave17_def relay_defs no_payload_def)
  have r: "remembered ?e1 (Close 0) = Some 7"
    by (simp add: remembered_def sessionId_on_message l) (simp add: one_joined_eq)
  show ?thesis
    using u ne f a
      end_session_once [where sto = ?M and st = two_joined and evs = ?evs and k = "Some 7"
        and e = "Close 0"]
      end_session_once [where sto = ?M and st = ?e1 and evs = "[]" and e = "Close 0"]
    by (simp add: r)
qed

text \<open>
  C1 as stated fails: the only member sends a session-leave, which empties the set and calls
  \<open>endSession\<close>; its connection then closes, finds the set still there and empty, and
  calls \<open>endSession\<close> a second time.
\<close>

theorem end_session_twice_counterexample:
  "calls (EndSession (Some 7))
     (snd (run (MemStorage [1, 2]) one_joined [Message 0 (Parsed leave17), Close 0])) = 2"
proof -
  let ?st1 = "fst (on_message (MemStorage [1, 2]) one_joined 0 (Parsed leave17))"
  have s1: "?st1 = one_joined\<lparr> sessionClients := [Some 7 \<mapsto> []] \<rparr>"
    by (simp add: one_joined_eq leave17_def relay_defs no_payload_def)
  have o1: "snd (on_message (MemStorage [1, 2]) one_joined 0 (Parsed leave17))
            = [Call (EndSession (Some 7))]"
    by (simp add: one_joined_eq leave17_def relay_defs no_payload_def await_call_def MemStorage_def)
  have o2: "snd (on_close (MemStorage [1, 2]) ?st1 0)
            = [Call (GetUser (Some 1)), Call (UpdateUser (Some 1) False), Call (EndSession (Some 7))]"
    unfolding s1
    by (simp add: one_joined_eq on_close_def set_offline_def leave_on_close_def Let_def
          MemStorage_def truthy_def Set_delete_def)
  show ?thesis
    by (simp add: split_beta o1 o2 calls_def)
qed

subsection \<open>Who receives a broadcast\<close>

















subsection \<open>Frames that lack fields\<close>







end
